theory Spec2Isabelle
  imports Main "HOL-Library.Word"
begin

section \<open>Machine types\<close>

text \<open>
  The C types of the driver headers. \<open>int32_t\<close> and \<open>int64_t\<close> are two's complement
  words read with \<open>sint\<close>; C's \<open>int\<close> is 32 bits wide on the platforms the driver
  builds for. A \<open>size_t\<close> counts elements of an allocated array and is a \<open>nat\<close>.
  A pointer is either null or the address of an object.
\<close>

type_synonym int32_t = "32 word"
type_synonym int64_t = "64 word"
type_synonym c_int = "32 word"
type_synonym size_t = nat

datatype pointer = Null | Address nat



section \<open>Data model: \<open>aeron_driver_common.h\<close>\<close>

record aeron_driver_managed_resource_t =
  registration_id :: int64_t
  time_of_last_status_change :: int64_t
  refcnt :: int32_t

record aeron_position_t =
  value_addr :: pointer
  counter_id :: int64_t

text \<open>
  \<open>array\<close> is the backing storage, \<open>capacity\<close> the number of elements it was
  allocated for, \<open>length'\<close> the number of entries in use (the C field \<open>length\<close>).
\<close>

record aeron_subscribeable_t =
  array :: "aeron_position_t list"
  length' :: size_t
  capacity :: size_t

section \<open>The receiver agent: \<open>aeron_driver_receiver.c\<close>\<close>

text \<open>
  The declaration of \<open>aeron_driver_receiver_t\<close> is in a header that is not part of the
  sources; the functions use its field \<open>context\<close> only (here \<open>context'\<close>). The record is
  extensible: its \<open>more\<close> part stands for every other field of the receiver.
\<close>

record aeron_driver_receiver_t =
  context' :: pointer

text \<open>
  \<open>aeron_driver_receiver_init\<close> stores the context pointer in the receiver it is given
  and returns 0. The receiver is passed by reference: the model takes the receiver
  the pointer refers to and returns the updated receiver next to the return code.
\<close>

definition aeron_driver_receiver_init ::
  "'z aeron_driver_receiver_t_scheme \<Rightarrow> pointer \<Rightarrow> c_int \<times> 'z aeron_driver_receiver_t_scheme" where
  "aeron_driver_receiver_init receiver context = (0, receiver\<lparr>context' := context\<rparr>)"

text \<open>
  \<open>aeron_driver_receiver_do_work\<close> and \<open>aeron_driver_receiver_on_close\<close> take the
  opaque \<open>clientd\<close> pointer and run in a program state \<open>'s\<close> (the memory of the driver).
  Neither body reads or writes anything: \<open>do_work\<close> returns 0, \<open>on_close\<close> is empty.
\<close>

definition aeron_driver_receiver_do_work :: "pointer \<Rightarrow> 's \<Rightarrow> c_int \<times> 's" where
  "aeron_driver_receiver_do_work clientd s = (0, s)"

definition aeron_driver_receiver_on_close :: "pointer \<Rightarrow> 's \<Rightarrow> 's" where
  "aeron_driver_receiver_on_close clientd s = s"

section \<open>Position Counter Store and allocator\<close>

text \<open>
  \<open>aeron_position.h\<close> declares the allocator and includes
  \<open>concurrent/aeron_counters_manager.h\<close>; neither the counters manager nor the body of
  the allocator is part of the sources. The definitions of this section follow section
  4.1 and section 6 of the specification.
\<close>

text \<open>
  Modelled from the spec: the slot of the counter file (the type behind
  \<open>aeron_counters_manager_t\<close> is missing). A slot is a 64-bit value, the label built from
  the identity fields (kept as the fields themselves: the specification gives no format),
  and the type and registration metadata.
\<close>

record counter_slot_t =
  slot_value :: int64_t
  slot_label :: "string \<times> int32_t \<times> int32_t \<times> string \<times> string"
  slot_type_id :: int32_t
  slot_registration_id :: int64_t

text \<open>
  Modelled from the spec: the Counter Store, a fixed array of slots (the missing
  \<open>aeron_counters_manager_t\<close>). A slot is free (\<open>None\<close>) or allocated. The number of
  slots is the capacity of the store and never changes.
\<close>

record aeron_counters_manager_t =
  slots :: "counter_slot_t option list"

text \<open>
  Modelled from the spec: the Counter Store as it is created (the counters manager's
  initialisation is missing): the given number of slots, all free.
\<close>

definition counters_manager_init :: "nat \<Rightarrow> aeron_counters_manager_t" where
  "counters_manager_init n = \<lparr>slots = replicate n None\<rparr>"

datatype alloc_error = EXHAUSTED

text \<open>
  Modelled from the spec: the search for a free slot in the allocator (the allocator's
  body is missing). The result is the lowest free slot of the array, if there is one.
\<close>

fun find_free :: "counter_slot_t option list \<Rightarrow> nat option" where
  "find_free [] = None"
| "find_free (None # xs) = Some 0"
| "find_free (Some v # xs) = map_option Suc (find_free xs)"

text \<open>
  Modelled from the spec: the body of \<open>aeron_stream_position_counter_allocate\<close> (only its
  declaration is in \<open>aeron_position.h\<close>). The contract is
  \<open>allocate(...) -> counter_id | EXHAUSTED\<close>: a free slot is taken, its value starts at
  0 and it is tagged with the identity fields; without a free slot the call reports
  \<open>EXHAUSTED\<close> and the store is as before. Which free slot is taken is not part of the
  contract; the model takes the lowest.
\<close>

definition aeron_stream_position_counter_allocate ::
  "aeron_counters_manager_t \<Rightarrow> string \<Rightarrow> int32_t \<Rightarrow> int64_t \<Rightarrow> int32_t \<Rightarrow> int32_t
     \<Rightarrow> string \<Rightarrow> string \<Rightarrow> (alloc_error + nat) \<times> aeron_counters_manager_t" where
  "aeron_stream_position_counter_allocate counters_manager name type_id registration_id'
       session_id stream_id channel suffix =
     (case find_free (slots counters_manager) of
        None \<Rightarrow> (Inl EXHAUSTED, counters_manager)
      | Some i \<Rightarrow>
          (Inr i,
           counters_manager\<lparr>slots := (slots counters_manager)
             [i := Some \<lparr>slot_value = 0,
                        slot_label = (name, session_id, stream_id, channel, suffix),
                        slot_type_id = type_id,
                        slot_registration_id = registration_id'\<rparr>]\<rparr>))"

text \<open>
  Modelled from the spec: \<open>free(counter_id)\<close> returns the slot to the free pool. An id
  outside the array names no slot and is ignored.
\<close>

definition counters_manager_free :: "aeron_counters_manager_t \<Rightarrow> nat \<Rightarrow> aeron_counters_manager_t" where
  "counters_manager_free counters_manager counter_id' =
     (if counter_id' < length (slots counters_manager)
      then counters_manager\<lparr>slots := (slots counters_manager)[counter_id' := None]\<rparr>
      else counters_manager)"

text \<open>The number of free slots of the store.\<close>

definition free_slots :: "aeron_counters_manager_t \<Rightarrow> nat" where
  "free_slots counters_manager = length (filter (\<lambda>s. s = None) (slots counters_manager))"

text \<open>
  Modelled from the spec: reading and writing a counter through a reference into the
  store (the accessors of the counters manager are missing). A reference is the address
  of a slot; a null reference, an address outside the array and a free slot have no
  value. The value is read as a signed 64-bit integer and written as one.
\<close>

definition counter_get :: "aeron_counters_manager_t \<Rightarrow> pointer \<Rightarrow> int option" where
  "counter_get counters_manager p =
     (case p of
        Null \<Rightarrow> None
      | Address a \<Rightarrow>
          (if a < length (slots counters_manager)
           then map_option (\<lambda>s. sint (slot_value s)) (slots counters_manager ! a)
           else None))"

definition counter_set ::
  "aeron_counters_manager_t \<Rightarrow> nat \<Rightarrow> int \<Rightarrow> aeron_counters_manager_t option" where
  "counter_set counters_manager a v =
     (if a < length (slots counters_manager)
      then (case slots counters_manager ! a of
              None \<Rightarrow> None
            | Some s \<Rightarrow>
                Some (counters_manager\<lparr>slots := (slots counters_manager)
                  [a := Some (s\<lparr>slot_value := word_of_int v\<rparr>)]\<rparr>))
      else None)"

section \<open>Subscribeable registry\<close>

text \<open>
  \<open>aeron_driver_common.h\<close> declares the struct; the functions that operate on it are not
  part of the sources. The definitions of this section follow section 4.4 of the
  specification.
\<close>

text \<open>The entries in use: the first \<open>length\<close> elements of the backing storage.\<close>

definition entries :: "aeron_subscribeable_t \<Rightarrow> aeron_position_t list" where
  "entries s = take (length' s) (array s)"

text \<open>
  Modelled from the spec: the Subscribeable of a new Publication (its initialisation is
  missing): no entry and no backing storage yet.
\<close>

definition subscribeable_init :: aeron_subscribeable_t where
  "subscribeable_init = \<lparr>array = [], length' = 0, capacity = 0\<rparr>"

text \<open>
  Modelled from the spec: the growth of the backing storage in \<open>add\<close> (the function is
  missing). The capacity doubles; an empty storage, which doubling would leave empty,
  gets room for one entry.
\<close>

definition grown_capacity :: "size_t \<Rightarrow> size_t" where
  "grown_capacity c = (if c = 0 then 1 else 2 * c)"

text \<open>
  Modelled from the spec: the reallocation in \<open>add\<close> (the function is missing). A
  full storage is extended to the grown capacity; the new elements are not in use, and
  their content does not matter.
\<close>

definition ensure_capacity :: "aeron_subscribeable_t \<Rightarrow> aeron_subscribeable_t" where
  "ensure_capacity s =
     (if length' s < capacity s then s
      else s\<lparr>array := array s
                 @ replicate (grown_capacity (capacity s) - capacity s)
                     \<lparr>value_addr = Null, counter_id = 0\<rparr>,
             capacity := grown_capacity (capacity s)\<rparr>)"

text \<open>
  Modelled from the spec: \<open>add(position)\<close> appends, growing the backing storage by
  doubling when it is full (the function is missing).
\<close>

definition subscribeable_add :: "aeron_subscribeable_t \<Rightarrow> aeron_position_t \<Rightarrow> aeron_subscribeable_t" where
  "subscribeable_add s p =
     (let s1 = ensure_capacity s
      in s1\<lparr>array := (array s1)[length' s1 := p], length' := length' s1 + 1\<rparr>)"

text \<open>
  Modelled from the spec: the search of \<open>remove\<close> (the function is missing): the index
  of the first entry with the given counter id.
\<close>

fun locate :: "int64_t \<Rightarrow> aeron_position_t list \<Rightarrow> nat option" where
  "locate c [] = None"
| "locate c (p # ps) = (if counter_id p = c then Some 0 else map_option Suc (locate c ps))"

text \<open>
  Modelled from the spec: \<open>remove(counter_id)\<close> locates the entry and removes it by
  swap-with-last: the last entry in use takes its place and the length drops by one (the
  function is missing). Without such an entry nothing changes.
\<close>

definition subscribeable_remove :: "aeron_subscribeable_t \<Rightarrow> int64_t \<Rightarrow> aeron_subscribeable_t" where
  "subscribeable_remove s c =
     (case locate c (entries s) of
        None \<Rightarrow> s
      | Some i \<Rightarrow>
          s\<lparr>array := (array s)[i := array s ! (length' s - 1)], length' := length' s - 1\<rparr>)"

text \<open>
  The states of a Subscribeable that the Conductor can reach: the empty registry, and
  whatever \<open>add\<close> and \<open>remove\<close> make of a reachable one.
\<close>

inductive reachable :: "aeron_subscribeable_t \<Rightarrow> bool" where
  reachable_init: "reachable subscribeable_init"
| reachable_add: "reachable s \<Longrightarrow> reachable (subscribeable_add s p)"
| reachable_remove: "reachable s \<Longrightarrow> reachable (subscribeable_remove s c)"

text \<open>
  The invariant of the registry: the entries in use fit the backing storage, and the
  capacity is the size of that storage.
\<close>

definition sub_inv :: "aeron_subscribeable_t \<Rightarrow> bool" where
  "sub_inv s = (length' s \<le> capacity s \<and> capacity s = length (array s))"

text \<open>
  Modelled from the spec: \<open>min_position()\<close> scans all entries and returns the minimum
  consumer position, or the producer's current position if there is none (the function
  is missing). \<open>min_scan\<close> is the loop over the remaining entries, with the minimum so
  far; an entry whose reference has no value makes the scan fail.
\<close>

fun min_scan :: "aeron_counters_manager_t \<Rightarrow> aeron_position_t list \<Rightarrow> int \<Rightarrow> int option" where
  "min_scan cm [] m = Some m"
| "min_scan cm (p # ps) m =
     (case counter_get cm (value_addr p) of
        None \<Rightarrow> None
      | Some v \<Rightarrow> min_scan cm ps (min v m))"

definition min_position ::
  "aeron_counters_manager_t \<Rightarrow> aeron_subscribeable_t \<Rightarrow> int \<Rightarrow> int option" where
  "min_position cm s producer_position =
     (case entries s of
        [] \<Rightarrow> Some producer_position
      | p # ps \<Rightarrow>
          (case counter_get cm (value_addr p) of
             None \<Rightarrow> None
           | Some v \<Rightarrow> min_scan cm ps v))"

text \<open>
  Modelled from the spec: \<open>recompute_limit()\<close> (the function is missing):
  \<open>limit = min(min_position() + window_size, producer_position)\<close>, written into the
  publisher-limit counter. The producer position is a 64-bit counter value and the
  window a size; the sum is the specification's, over the integers.
\<close>

definition recompute_limit ::
  "aeron_counters_manager_t \<Rightarrow> aeron_subscribeable_t \<Rightarrow> size_t \<Rightarrow> int64_t \<Rightarrow> nat
     \<Rightarrow> aeron_counters_manager_t option" where
  "recompute_limit cm s window_size producer_position pub_lmt_counter_id =
     (case min_position cm s (sint producer_position) of
        None \<Rightarrow> None
      | Some m \<Rightarrow>
          counter_set cm pub_lmt_counter_id
            (min (m + int window_size) (sint producer_position)))"

section \<open>Properties of the data model\<close>


section \<open>Properties of the receiver agent\<close>

text \<open>
  C8: for every input state and every \<open>clientd\<close>, one invocation of the receiver's
  \<open>do_work\<close> returns a non-negative work count.
\<close>

theorem receiver_do_work_nonneg:
  "0 \<le> sint (fst (aeron_driver_receiver_do_work clientd s))"
  by (simp add: aeron_driver_receiver_do_work_def)

text \<open>
  C9: the receiver's \<open>on_close\<close> is idempotent: calling it twice in a row leaves the
  state that one call leaves.
\<close>

theorem receiver_on_close_idempotent:
  "aeron_driver_receiver_on_close clientd (aeron_driver_receiver_on_close clientd s)
     = aeron_driver_receiver_on_close clientd s"
  by (simp add: aeron_driver_receiver_on_close_def)

text \<open>
  C10: \<open>aeron_driver_receiver_init\<close> has no failure path. For every receiver and every
  context pointer, the null pointer included, it returns 0, the receiver's context
  field is the supplied pointer afterwards, and every other field of the receiver is
  as before.
\<close>

theorem receiver_init_always_succeeds:
  "fst (aeron_driver_receiver_init receiver context) = 0
   \<and> context' (snd (aeron_driver_receiver_init receiver context)) = context
   \<and> aeron_driver_receiver_t.more (snd (aeron_driver_receiver_init receiver context))
       = aeron_driver_receiver_t.more receiver
   \<and> fst (aeron_driver_receiver_init receiver Null) = 0
   \<and> context' (snd (aeron_driver_receiver_init receiver Null)) = Null"
  by (simp add: aeron_driver_receiver_init_def)

section \<open>Properties of the Counter Store\<close>

lemma find_free_None: "find_free xs = None \<longleftrightarrow> filter (\<lambda>s. s = None) xs = []"
  by (induction xs rule: find_free.induct) auto

lemma find_free_Some: "find_free xs = Some i \<Longrightarrow> i < length xs \<and> xs ! i = None"
  by (induction xs arbitrary: i rule: find_free.induct) auto

lemma filter_None_update_Some:
  "i < length xs \<Longrightarrow> xs ! i = None \<Longrightarrow>
   length (filter (\<lambda>s. s = None) (xs[i := Some v])) + 1 = length (filter (\<lambda>s. s = None) xs)"
  by (induction xs arbitrary: i) (auto split: nat.splits)

lemma allocate_exhausted:
  "find_free (slots cm) = None \<Longrightarrow>
   aeron_stream_position_counter_allocate cm name type_id reg session stream channel suffix
     = (Inl EXHAUSTED, cm) \<and> free_slots cm = 0"
  by (simp add: aeron_stream_position_counter_allocate_def free_slots_def
      find_free_None [symmetric])

lemma allocate_success:
  assumes "find_free (slots cm) = Some i"
  shows "\<exists>cm'. aeron_stream_position_counter_allocate cm name type_id reg session stream channel suffix
           = (Inr i, cm')
         \<and> i < length (slots cm) \<and> slots cm ! i = None \<and> slots cm' ! i \<noteq> None
         \<and> free_slots cm' + 1 = free_slots cm"
proof -
  from assms have i: "i < length (slots cm)" "slots cm ! i = None"
    by (auto dest: find_free_Some)
  then show ?thesis using assms
    by (simp add: aeron_stream_position_counter_allocate_def free_slots_def
        filter_None_update_Some [simplified])
qed

lemma allocate_general:
  "(let r = aeron_stream_position_counter_allocate cm name type_id reg session stream channel suffix
    in (fst r = Inl EXHAUSTED \<longleftrightarrow> free_slots cm = 0)
     \<and> (fst r = Inl EXHAUSTED \<longrightarrow> snd r = cm)
     \<and> (\<forall>i. fst r = Inr i \<longrightarrow>
           i < length (slots cm) \<and> slots cm ! i = None \<and> slots (snd r) ! i \<noteq> None
           \<and> free_slots (snd r) + 1 = free_slots cm))"
proof (cases "find_free (slots cm)")
  case None
  from allocate_exhausted [OF this, of name type_id reg session stream channel suffix]
  show ?thesis by (simp add: Let_def)
next
  case (Some i)
  from allocate_success [OF this, of name type_id reg session stream channel suffix]
  show ?thesis by (auto simp: Let_def)
qed

lemma allocate_capacity_four:
  assumes "k < 4"
  shows
   "(let alloc = (\<lambda>cm. aeron_stream_position_counter_allocate cm name type_id reg session
                          stream channel suffix);
        (r1, s1) = alloc (counters_manager_init 4);
        (r2, s2) = alloc s1;
        (r3, s3) = alloc s2;
        (r4, s4) = alloc s3;
        (r5, s5) = alloc s4;
        (r6, s6) = alloc (counters_manager_free s5 k);
        (r7, s7) = alloc s6
    in [r1, r2, r3, r4] = [Inr 0, Inr 1, Inr 2, Inr 3] \<and> r5 = Inl EXHAUSTED \<and> s5 = s4
       \<and> r6 = Inr k \<and> r7 = Inl EXHAUSTED)"
proof -
  from assms consider "k = 0" | "k = 1" | "k = 2" | "k = 3" by linarith
  then show ?thesis
    by cases (simp_all add: aeron_stream_position_counter_allocate_def counters_manager_init_def
        counters_manager_free_def eval_nat_numeral)
qed

text \<open>
  C5: allocation returns a counter id on success and \<open>EXHAUSTED\<close> exactly when no free
  slot remains. \<open>EXHAUSTED\<close> is an ordinary result: the store is as it was. A returned id
  names a slot that was free and is allocated afterwards. In a store of capacity 4, four
  consecutive allocations succeed (with four different ids), the fifth returns
  \<open>EXHAUSTED\<close>, and after freeing any one of the four slots the next allocation succeeds
  again (once: the one after it is \<open>EXHAUSTED\<close>).
\<close>

theorem counter_allocate_exhausted_iff_full:
  "(let r = aeron_stream_position_counter_allocate cm name type_id reg session stream channel suffix
    in (fst r = Inl EXHAUSTED \<longleftrightarrow> free_slots cm = 0)
     \<and> (fst r = Inl EXHAUSTED \<longrightarrow> snd r = cm)
     \<and> (\<forall>i. fst r = Inr i \<longrightarrow>
           i < length (slots cm) \<and> slots cm ! i = None \<and> slots (snd r) ! i \<noteq> None
           \<and> free_slots (snd r) + 1 = free_slots cm))
   \<and> (\<forall>k < 4.
        let alloc = (\<lambda>cm. aeron_stream_position_counter_allocate cm name type_id reg session
                          stream channel suffix);
            (r1, s1) = alloc (counters_manager_init 4);
            (r2, s2) = alloc s1;
            (r3, s3) = alloc s2;
            (r4, s4) = alloc s3;
            (r5, s5) = alloc s4;
            (r6, s6) = alloc (counters_manager_free s5 k);
            (r7, s7) = alloc s6
        in [r1, r2, r3, r4] = [Inr 0, Inr 1, Inr 2, Inr 3] \<and> r5 = Inl EXHAUSTED \<and> s5 = s4
           \<and> r6 = Inr k \<and> r7 = Inl EXHAUSTED)"
proof (intro conjI allI impI)
  show "let r = aeron_stream_position_counter_allocate cm name type_id reg session stream channel suffix
    in (fst r = Inl EXHAUSTED \<longleftrightarrow> free_slots cm = 0)
     \<and> (fst r = Inl EXHAUSTED \<longrightarrow> snd r = cm)
     \<and> (\<forall>i. fst r = Inr i \<longrightarrow>
           i < length (slots cm) \<and> slots cm ! i = None \<and> slots (snd r) ! i \<noteq> None
           \<and> free_slots (snd r) + 1 = free_slots cm)"
    by (rule allocate_general)
next
  fix k :: nat
  assume "k < 4"
  then show "let alloc = (\<lambda>cm. aeron_stream_position_counter_allocate cm name type_id reg session
                          stream channel suffix);
            (r1, s1) = alloc (counters_manager_init 4);
            (r2, s2) = alloc s1;
            (r3, s3) = alloc s2;
            (r4, s4) = alloc s3;
            (r5, s5) = alloc s4;
            (r6, s6) = alloc (counters_manager_free s5 k);
            (r7, s7) = alloc s6
        in [r1, r2, r3, r4] = [Inr 0, Inr 1, Inr 2, Inr 3] \<and> r5 = Inl EXHAUSTED \<and> s5 = s4
           \<and> r6 = Inr k \<and> r7 = Inl EXHAUSTED"
    by (rule allocate_capacity_four)
qed

theorem counter_allocate_exhausted_iff_full_witness:
  "free_slots (counters_manager_init 0) = 0
   \<and> aeron_stream_position_counter_allocate (counters_manager_init 0)
        ''pub-lmt'' 1 7 3 10 ''aeron:ipc'' '''' = (Inl EXHAUSTED, counters_manager_init 0)
   \<and> fst (aeron_stream_position_counter_allocate (counters_manager_init 1)
        ''pub-lmt'' 1 7 3 10 ''aeron:ipc'' '''') = Inr 0
   \<and> free_slots (counters_manager_init 1) = 1
   \<and> free_slots (snd (aeron_stream_position_counter_allocate (counters_manager_init 1)
        ''pub-lmt'' 1 7 3 10 ''aeron:ipc'' '''')) = 0
   \<and> (2 :: nat) < 4
   \<and> (let alloc = (\<lambda>cm. aeron_stream_position_counter_allocate cm
                          ''pub-lmt'' 1 7 3 10 ''aeron:ipc'' '''');
          (r1, s1) = alloc (counters_manager_init 4);
          (r2, s2) = alloc s1;
          (r3, s3) = alloc s2;
          (r4, s4) = alloc s3;
          (r5, s5) = alloc s4;
          (r6, s6) = alloc (counters_manager_free s5 2);
          (r7, s7) = alloc s6
      in [r1, r2, r3, r4] = [Inr 0, Inr 1, Inr 2, Inr 3] \<and> r5 = Inl EXHAUSTED \<and> s5 = s4
         \<and> r6 = Inr 2 \<and> r7 = Inl EXHAUSTED)"
proof -
  have e: "aeron_stream_position_counter_allocate (counters_manager_init 0)
        ''pub-lmt'' 1 7 3 10 ''aeron:ipc'' '''' = (Inl EXHAUSTED, counters_manager_init 0)"
    by (simp add: aeron_stream_position_counter_allocate_def counters_manager_init_def)
  have s: "fst (aeron_stream_position_counter_allocate (counters_manager_init 1)
        ''pub-lmt'' 1 7 3 10 ''aeron:ipc'' '''') = Inr 0"
    by (simp add: aeron_stream_position_counter_allocate_def counters_manager_init_def)
  have f: "free_slots (counters_manager_init 0) = 0" "free_slots (counters_manager_init 1) = 1"
    by (simp_all add: free_slots_def counters_manager_init_def)
  have k: "(2 :: nat) < 4" by simp
  note t0 = counter_allocate_exhausted_iff_full
    [of "counters_manager_init 0" "''pub-lmt''" 1 7 3 10 "''aeron:ipc''" "''''"]
  note t1 = counter_allocate_exhausted_iff_full
    [of "counters_manager_init 1" "''pub-lmt''" 1 7 3 10 "''aeron:ipc''" "''''"]
  from t1 s f have "free_slots (snd (aeron_stream_position_counter_allocate (counters_manager_init 1)
        ''pub-lmt'' 1 7 3 10 ''aeron:ipc'' '''')) = 0"
    by (simp add: Let_def)
  moreover from t0 k have "(let alloc = (\<lambda>cm. aeron_stream_position_counter_allocate cm
                          ''pub-lmt'' 1 7 3 10 ''aeron:ipc'' '''');
          (r1, s1) = alloc (counters_manager_init 4);
          (r2, s2) = alloc s1;
          (r3, s3) = alloc s2;
          (r4, s4) = alloc s3;
          (r5, s5) = alloc s4;
          (r6, s6) = alloc (counters_manager_free s5 2);
          (r7, s7) = alloc s6
      in [r1, r2, r3, r4] = [Inr 0, Inr 1, Inr 2, Inr 3] \<and> r5 = Inl EXHAUSTED \<and> s5 = s4
         \<and> r6 = Inr 2 \<and> r7 = Inl EXHAUSTED)"
    by blast
  ultimately show ?thesis using e s f k by blast
qed

section \<open>Properties of the Subscribeable registry\<close>

lemma grown_capacity_gt: "c < grown_capacity c"
  by (simp add: grown_capacity_def)

lemma ensure_capacity_inv:
  "sub_inv s \<Longrightarrow> sub_inv (ensure_capacity s) \<and> length' (ensure_capacity s) < capacity (ensure_capacity s)
     \<and> length' (ensure_capacity s) = length' s"
  using grown_capacity_gt [of "capacity s"]
  by (auto simp: sub_inv_def ensure_capacity_def)

lemma add_inv: "sub_inv s \<Longrightarrow> sub_inv (subscribeable_add s p)"
  using ensure_capacity_inv [of s]
  by (auto simp: subscribeable_add_def Let_def sub_inv_def)

lemma locate_Some: "locate c ps = Some i \<Longrightarrow> i < length ps \<and> counter_id (ps ! i) = c"
  by (induction ps arbitrary: i) (auto split: if_splits)

lemma remove_inv: "sub_inv s \<Longrightarrow> sub_inv (subscribeable_remove s c)"
  by (auto simp: subscribeable_remove_def sub_inv_def split: option.splits)

lemma reachable_inv: "reachable s \<Longrightarrow> sub_inv s"
proof (induction rule: reachable.induct)
  case reachable_init
  show ?case by (simp add: sub_inv_def subscribeable_init_def)
next
  case (reachable_add s p)
  then show ?case by (simp add: add_inv)
next
  case (reachable_remove s c)
  then show ?case by (simp add: remove_inv)
qed

text \<open>
  C4: in every state of a Subscribeable that the Conductor reaches from the empty
  registry by any sequence of \<open>add\<close> (growing by doubling) and \<open>remove\<close>
  (swap-with-last), \<open>length \<le> capacity\<close> holds.
\<close>

theorem subscribeable_length_le_capacity:
  "reachable s \<Longrightarrow> length' s \<le> capacity s"
  by (drule reachable_inv) (simp add: sub_inv_def)

theorem subscribeable_length_le_capacity_witness:
  "reachable (subscribeable_add subscribeable_init \<lparr>value_addr = Address 0, counter_id = 5\<rparr>)
   \<and> length' (subscribeable_add subscribeable_init \<lparr>value_addr = Address 0, counter_id = 5\<rparr>) = 1
   \<and> capacity (subscribeable_add subscribeable_init \<lparr>value_addr = Address 0, counter_id = 5\<rparr>) = 1
   \<and> length' (subscribeable_add subscribeable_init \<lparr>value_addr = Address 0, counter_id = 5\<rparr>)
       \<le> capacity (subscribeable_add subscribeable_init \<lparr>value_addr = Address 0, counter_id = 5\<rparr>)"
proof -
  have r: "reachable (subscribeable_add subscribeable_init \<lparr>value_addr = Address 0, counter_id = 5\<rparr>)"
    by (rule reachable_add [OF reachable_init])
  from subscribeable_length_le_capacity [OF r] r show ?thesis
    by (simp add: subscribeable_add_def subscribeable_init_def ensure_capacity_def grown_capacity_def)
qed

section \<open>Flow control\<close>

lemma sint_word_of_int_64:
  "- (2 ^ 63) \<le> v \<Longrightarrow> v < 2 ^ 63 \<Longrightarrow> sint (word_of_int v :: 64 word) = v"
  by (simp add: sint_sbintrunc' signed_take_bit_int_eq_self)

lemma min_scan_Min:
  "map (\<lambda>p. counter_get cm (value_addr p)) ps = map Some vs \<Longrightarrow>
   min_scan cm ps m = Some (Min (insert m (set vs)))"
proof (induction ps arbitrary: vs m)
  case Nil
  then show ?case by simp
next
  case (Cons p ps)
  then obtain v vs' where vs: "vs = v # vs'" "counter_get cm (value_addr p) = Some v"
      "map (\<lambda>p. counter_get cm (value_addr p)) ps = map Some vs'"
    by (cases vs) auto
  have "min_scan cm (p # ps) m = Some (Min (insert (min v m) (set vs')))"
    using Cons.IH [OF vs(3)] vs(2) by simp
  also have "Min (insert (min v m) (set vs')) = Min (insert m (set vs))"
    unfolding vs(1) by (cases "set vs' = {}") (simp_all add: min.assoc min.commute min.left_commute)
  finally show ?case .
qed

lemma min_position_Min:
  assumes "map (\<lambda>p. counter_get cm (value_addr p)) (entries s) = map Some vs"
  shows "min_position cm s P = Some (if vs = [] then P else Min (set vs))"
proof (cases "entries s")
  case Nil
  with assms show ?thesis by (simp add: min_position_def)
next
  case (Cons p ps)
  with assms obtain v vs' where vs: "vs = v # vs'" "counter_get cm (value_addr p) = Some v"
      "map (\<lambda>p. counter_get cm (value_addr p)) ps = map Some vs'"
    by (cases vs) auto
  show ?thesis using Cons vs(1,2) min_scan_Min [OF vs(3), of v]
    by (simp add: min_position_def)
qed


lemma counter_get_range:
  assumes "counter_get cm p = Some v"
  shows "- (2 ^ 63) \<le> v \<and> v < 2 ^ 63"
proof -
  from assms obtain w :: "64 word" where "v = sint w"
    by (auto simp: counter_get_def split: pointer.splits if_splits)
  then show ?thesis
    using sint_ge [of w] sint_lt [of w] by simp
qed

lemma counter_get_set:
  assumes "counter_get cm (Address a) \<noteq> None"
  shows "\<exists>cm'. counter_set cm a v = Some cm'
           \<and> counter_get cm' (Address a) = Some (sint (word_of_int v :: 64 word))"
  using assms
  by (auto simp: counter_get_def counter_set_def split: if_splits option.splits)

text \<open>
  C1: let \<open>ps\<close> be the consumer positions \<open>p_1..p_n\<close> read through the entries of a
  Publication's Subscribeable and \<open>P\<close> the producer position. \<open>recompute_limit\<close>
  returns, and the publisher-limit counter then holds \<open>min (min (p_1..p_n) + window) P\<close>;
  with no entry (\<open>n = 0\<close>) \<open>min_position\<close> is the producer position and the limit
  is \<open>P\<close>.
\<close>

theorem recompute_limit_min:
  assumes inv: "sub_inv s"
    and reads: "map (\<lambda>p. counter_get cm (value_addr p)) (entries s) = map Some ps"
    and lim: "counter_get cm (Address pub_lmt) \<noteq> None"
  shows "\<exists>cm'. recompute_limit cm s w P pub_lmt = Some cm'
           \<and> counter_get cm' (Address pub_lmt)
               = Some (if length' s = 0 then sint P else min (Min (set ps) + int w) (sint P))
           \<and> length ps = length' s"
proof -
  define m where "m = (if ps = [] then sint P else Min (set ps))"
  define l where "l = min (m + int w) (sint P)"
  have len: "length ps = length' s"
  proof -
    have "length ps = length (map Some ps)" by simp
    also have "\<dots> = length (entries s)" unfolding reads [symmetric] by simp
    also have "\<dots> = length' s" using inv by (simp add: entries_def sub_inv_def)
    finally show ?thesis .
  qed
  have mp: "min_position cm s (sint P) = Some m"
    unfolding m_def by (rule min_position_Min [OF reads])
  have P: "- (2 ^ 63) \<le> sint P" "sint P < 2 ^ 63"
    using sint_ge [of P] sint_lt [of P] by simp_all
  have m_lo: "- (2 ^ 63) \<le> m"
  proof (cases "ps = []")
    case True
    then show ?thesis using P by (simp add: m_def)
  next
    case False
    then have "Min (set ps) \<in> set ps" by simp
    then obtain i where i: "i < length ps" "ps ! i = Min (set ps)"
      by (auto simp: in_set_conv_nth)
    have "map (\<lambda>p. counter_get cm (value_addr p)) (entries s) ! i = map Some ps ! i"
      by (simp add: reads)
    then have "counter_get cm (value_addr (entries s ! i)) = Some (Min (set ps))"
      using i len inv by (simp add: entries_def sub_inv_def)
    from counter_get_range [OF this] False show ?thesis by (simp add: m_def)
  qed
  have l: "- (2 ^ 63) \<le> l" "l < 2 ^ 63"
    using m_lo P by (simp_all add: l_def)
  obtain cm' where cm': "counter_set cm pub_lmt l = Some cm'"
      "counter_get cm' (Address pub_lmt) = Some (sint (word_of_int l :: 64 word))"
    using counter_get_set [OF lim, of l] by blast
  have "recompute_limit cm s w P pub_lmt = Some cm'"
    using mp cm'(1) by (simp add: recompute_limit_def l_def)
  moreover have "counter_get cm' (Address pub_lmt) = Some l"
    using cm'(2) sint_word_of_int_64 [OF l] by simp
  moreover have "l = (if length' s = 0 then sint P else min (Min (set ps) + int w) (sint P))"
    using len by (auto simp: l_def m_def)
  ultimately show ?thesis using len by simp
qed

theorem recompute_limit_min_witness:
  "(let cm = \<lparr>slots =
          [Some \<lparr>slot_value = 100, slot_label = (''sub-pos'', 3, 10, ''aeron:ipc'', ''''),
                 slot_type_id = 4, slot_registration_id = 8\<rparr>,
           Some \<lparr>slot_value = 40, slot_label = (''sub-pos'', 3, 10, ''aeron:ipc'', ''''),
                 slot_type_id = 4, slot_registration_id = 9\<rparr>,
           Some \<lparr>slot_value = 0, slot_label = (''pub-lmt'', 3, 10, ''aeron:ipc'', ''''),
                 slot_type_id = 1, slot_registration_id = 7\<rparr>]\<rparr>;
        s = \<lparr>array = [\<lparr>value_addr = Address 0, counter_id = 0\<rparr>,
                       \<lparr>value_addr = Address 1, counter_id = 1\<rparr>],
             length' = 2, capacity = 2\<rparr>
    in sub_inv s
       \<and> map (\<lambda>p. counter_get cm (value_addr p)) (entries s) = map Some [100, 40]
       \<and> counter_get cm (Address 2) \<noteq> None
       \<and> (\<exists>cm'. recompute_limit cm s 16 200 2 = Some cm'
                 \<and> counter_get cm' (Address 2) = Some 56))"
proof -
  let ?cm = "\<lparr>slots =
          [Some \<lparr>slot_value = 100, slot_label = (''sub-pos'', 3, 10, ''aeron:ipc'', ''''),
                 slot_type_id = 4, slot_registration_id = 8\<rparr>,
           Some \<lparr>slot_value = 40, slot_label = (''sub-pos'', 3, 10, ''aeron:ipc'', ''''),
                 slot_type_id = 4, slot_registration_id = 9\<rparr>,
           Some \<lparr>slot_value = 0, slot_label = (''pub-lmt'', 3, 10, ''aeron:ipc'', ''''),
                 slot_type_id = 1, slot_registration_id = 7\<rparr>]\<rparr>"
  let ?s = "\<lparr>array = [\<lparr>value_addr = Address 0, counter_id = 0\<rparr>,
                       \<lparr>value_addr = Address 1, counter_id = 1\<rparr>],
             length' = 2, capacity = 2\<rparr>"
  have inv: "sub_inv ?s"
    by (simp add: sub_inv_def)
  have reads: "map (\<lambda>p. counter_get ?cm (value_addr p)) (entries ?s) = map Some [100, 40]"
    by (simp add: entries_def counter_get_def)
  have lim: "counter_get ?cm (Address 2) \<noteq> None"
    by (simp add: counter_get_def)
  from recompute_limit_min [OF inv reads lim, of 16 200]
  have "\<exists>cm'. recompute_limit ?cm ?s 16 200 2 = Some cm'
                 \<and> counter_get cm' (Address 2) = Some 56"
    by simp
  with inv reads lim show ?thesis
    unfolding Let_def by blast
qed

end
